theory Spec2Isabelle
  imports Main "HOL-Library.Word"
begin

unbundle bit_operations_syntax

section \<open>The Go library functions the filesystem uses\<close>

text \<open>
  A Go string is a sequence of bytes, and so is an Isabelle \<open>string\<close>. The functions of
  package \<open>strings\<close> follow the standard library: \<open>HasPrefix\<close> and \<open>HasSuffix\<close> compare
  a slice of the right length, the trimming functions cut it off when it is there.
\<close>

definition HasPrefix :: "string \<Rightarrow> string \<Rightarrow> bool" where
  "HasPrefix s pre = (length pre \<le> length s \<and> take (length pre) s = pre)"

definition TrimPrefix :: "string \<Rightarrow> string \<Rightarrow> string" where
  "TrimPrefix s pre = (if HasPrefix s pre then drop (length pre) s else s)"

definition HasSuffix :: "string \<Rightarrow> string \<Rightarrow> bool" where
  "HasSuffix s suf = (length suf \<le> length s \<and> drop (length s - length suf) s = suf)"

definition TrimSuffix :: "string \<Rightarrow> string \<Rightarrow> string" where
  "TrimSuffix s suf = (if HasSuffix s suf then take (length s - length suf) s else s)"

text \<open>
  \<open>strings.Split(s, sep)\<close> for a separator of one byte, which is the only way the
  program calls it (\<open>sep = "/"\<close>): the pieces between the separators, one more than
  there are separators, so the result is never empty.
\<close>

fun Split :: "string \<Rightarrow> char \<Rightarrow> string list" where
  "Split [] sep = [[]]"
| "Split (c # cs) sep =
     (if c = sep then [] # Split cs sep
      else (case Split cs sep of
              w # ws \<Rightarrow> (c # w) # ws
            | [] \<Rightarrow> [[c]]))"

text \<open>
  Package \<open>time\<close>: an instant is a number of nanoseconds on the monotonic clock, a
  \<open>Duration\<close> is a signed 64-bit number of nanoseconds, and \<open>t.Sub(u)\<close> saturates at
  the ends of that range.
\<close>

type_synonym Time = int
type_synonym Duration = int

definition minDuration :: Duration where
  "minDuration = - (2 ^ 63)"

definition maxDuration :: Duration where
  "maxDuration = 2 ^ 63 - 1"

definition Sub :: "Time \<Rightarrow> Time \<Rightarrow> Duration" where
  "Sub t u =
     (let d = t - u
      in if d < minDuration then minDuration
         else if maxDuration < d then maxDuration
         else d)"

definition Minute :: Duration where
  "Minute = 60 * 1000000000"

section \<open>Data model (main.go)\<close>

text \<open>
  A value of Go type \<open>interface{}\<close> as \<open>yaml.Unmarshal\<close> produces it: a
  \<open>map[string]interface{}\<close>, a string, or anything else (a number, a boolean, null, a
  list); for the last the model keeps the text \<open>fmt.Sprintf("%v", v)\<close> prints. A Go map
  is an association list read with \<open>map_of\<close>; its keys are unique.
\<close>

datatype node =
    YMap "(string \<times> node) list"
  | YStr string
  | YOther string

record cachedSecret =
  cvalue :: string
  timestamp :: Time

definition secretCacheTTL :: Duration where
  "secretCacheTTL = 5 * Minute"

definition cacheCleanupPeriod :: Duration where
  "cacheCleanupPeriod = 10 * Minute"

record SopsClient =
  keyserviceAddr :: string

text \<open>
  The filesystem object. \<open>sopsClient\<close> is a pointer, \<open>None\<close> when nil. The mutex is not
  modelled: every operation below is one uninterrupted call.
\<close>

record SopsFS =
  sopsClient :: "SopsClient option"
  secretsWSLPath :: string
  secretsTree :: "(string \<times> node) list"
  secretsCache :: "string \<rightharpoonup> cachedSecret"


section \<open>The decryption client\<close>

datatype DecryptError =
    ReadEncryptedFile
  | LoadEncryptedFile
  | SopsDecryptFailed
  | EmitPlaintext
  | ParseDecryptedYAML
  | PathErrorAt string
  | KeyNotFound "string list"

datatype StructureError = FailedToReadSOPSFile | FailedToParseYAML

text \<open>
  What lies outside the program: the files on disk, the YAML parser, the SOPS library
  with its key services, and the formatting of package \<open>fmt\<close>. \<open>decryptedDocument n f\<close>
  is what reading, loading, decrypting, emitting and parsing file \<open>f\<close> yields at the
  \<open>n\<close>-th call of \<open>DecryptKey\<close>: the root of the plaintext document, or the step that
  failed. \<open>decryptCalls\<close> records every call of \<open>DecryptKey\<close>, in order.
\<close>

record world =
  osReadFile :: "string \<Rightarrow> string option"
  yamlUnmarshal :: "string \<Rightarrow> (string \<times> node) list option"
  decryptedDocument :: "nat \<Rightarrow> string \<Rightarrow> DecryptError + node"
  fmtSprintv :: "node \<Rightarrow> string"
  decryptCalls :: "(string \<times> string list) list"

text \<open>\<open>delete(m, key)\<close> on a Go map.\<close>

definition delete :: "(string \<times> node) list \<Rightarrow> string \<Rightarrow> (string \<times> node) list" where
  "delete m key = filter (\<lambda>kv. fst kv \<noteq> key) m"

definition GetSecretsStructure ::
    "world \<Rightarrow> string \<Rightarrow> StructureError + (string \<times> node) list" where
  "GetSecretsStructure w filePath =
     (case osReadFile w filePath of
        None \<Rightarrow> Inl FailedToReadSOPSFile
      | Some data \<Rightarrow>
          (case yamlUnmarshal w data of
             None \<Rightarrow> Inl FailedToParseYAML
           | Some sopsFile \<Rightarrow> Inr (delete sopsFile ''sops'')))"

text \<open>The walk of \<open>DecryptKey\<close> along the key path inside the plaintext document.\<close>

fun extractKey :: "string list \<Rightarrow> node \<Rightarrow> string list \<Rightarrow> DecryptError + node" where
  "extractKey keyPath cur [] = Inr cur"
| "extractKey keyPath cur (k # ks) =
     (case cur of
        YMap m \<Rightarrow>
          (case map_of m k of
             None \<Rightarrow> Inl (KeyNotFound keyPath)
           | Some v \<Rightarrow> extractKey keyPath v ks)
      | _ \<Rightarrow> Inl (PathErrorAt k))"

definition DecryptKey ::
    "string \<Rightarrow> string list \<Rightarrow> world \<Rightarrow> (DecryptError + string) \<times> world" where
  "DecryptKey filePath keyPath w =
     (let w' = w\<lparr>decryptCalls := decryptCalls w @ [(filePath, keyPath)]\<rparr>
      in case decryptedDocument w (length (decryptCalls w)) filePath of
           Inl e \<Rightarrow> (Inl e, w')
         | Inr root \<Rightarrow>
             (case extractKey keyPath root keyPath of
                Inl e \<Rightarrow> (Inl e, w')
              | Inr (YStr v) \<Rightarrow> (Inr v, w')
              | Inr v \<Rightarrow> (Inr (fmtSprintv w v), w')))"

section \<open>Path resolution (main.go)\<close>

definition parseSopsKeyPath :: "string \<Rightarrow> string list option" where
  "parseSopsKeyPath filePath =
     (case Split (TrimPrefix filePath ''/'') CHR ''/'' of
        p0 # k0 # ks \<Rightarrow>
          if p0 \<noteq> ''secrets'' then None
          else Some (map (\<lambda>k. TrimSuffix (TrimSuffix k ''.yaml'') ''.txt'') (k0 # ks))
      | _ \<Rightarrow> None)"

fun navigate :: "node \<Rightarrow> string list \<Rightarrow> node option" where
  "navigate current [] = Some current"
| "navigate current (key # rest) =
     (case current of
        YMap m \<Rightarrow>
          (case map_of m key of
             None \<Rightarrow> None
           | Some v \<Rightarrow> navigate v rest)
      | _ \<Rightarrow> None)"

definition navigateToPath :: "SopsFS \<Rightarrow> string list \<Rightarrow> node option" where
  "navigateToPath fs keyPath = navigate (YMap (secretsTree fs)) keyPath"

fun isMap :: "node \<Rightarrow> bool" where
  "isMap (YMap m) = True"
| "isMap _ = False"

definition refreshSecretsStructure ::
    "SopsFS \<Rightarrow> world \<Rightarrow> StructureError option \<times> SopsFS \<times> world" where
  "refreshSecretsStructure fs w =
     (case GetSecretsStructure w (secretsWSLPath fs) of
        Inl err \<Rightarrow> (Some err, fs, w)
      | Inr structure \<Rightarrow> (None, fs\<lparr>secretsTree := structure\<rparr>, w))"

section \<open>Filesystem operations (main.go)\<close>

text \<open>
  The part of \<open>fuse.Stat_t\<close> the program writes, and the mode bits of the FUSE library:
  \<open>S_IFDIR = 0040000\<close>, \<open>S_IFREG = 0100000\<close>; the permissions \<open>0555\<close> and \<open>0444\<close> are
  365 and 292.
\<close>

record Stat_t =
  Mode :: "32 word"
  Size :: "64 word"

definition S_IFDIR :: "32 word" where
  "S_IFDIR = 16384"

definition S_IFREG :: "32 word" where
  "S_IFREG = 32768"

definition dirMode :: "32 word" where
  "dirMode = S_IFDIR OR 365"

definition fileMode :: "32 word" where
  "fileMode = S_IFREG OR 292"

definition ENOENT :: int where "ENOENT = 2"
definition EIO :: int where "EIO = 5"
definition ENOTDIR :: int where "ENOTDIR = 20"
definition EISDIR :: int where "EISDIR = 21"

text \<open>
  Every operation is a method on the filesystem object and may reach the decryption
  client, so each takes the object and the world and returns them with its result.
  \<open>Getattr\<close> writes through its \<open>stat\<close> pointer: the model returns the structure.
\<close>

definition Getattr ::
    "string \<Rightarrow> Stat_t \<Rightarrow> 64 word \<Rightarrow> SopsFS \<Rightarrow> world \<Rightarrow> (int \<times> Stat_t) \<times> SopsFS \<times> world" where
  "Getattr path stat fh fs w =
     (if path = ''/'' then ((0, stat\<lparr>Mode := dirMode\<rparr>), fs, w)
      else if path = ''/secrets'' then ((0, stat\<lparr>Mode := dirMode\<rparr>), fs, w)
      else if \<not> HasPrefix path ''/secrets/'' then ((- ENOENT, stat), fs, w)
      else (case parseSopsKeyPath path of
              None \<Rightarrow> ((- ENOENT, stat), fs, w)
            | Some keyPath \<Rightarrow>
                (case navigateToPath fs keyPath of
                   None \<Rightarrow> ((- ENOENT, stat), fs, w)
                 | Some nd \<Rightarrow>
                     if isMap nd then ((0, stat\<lparr>Mode := dirMode\<rparr>), fs, w)
                     else ((0, stat\<lparr>Mode := fileMode, Size := 4096\<rparr>), fs, w))))"

definition Open ::
    "string \<Rightarrow> int \<Rightarrow> SopsFS \<Rightarrow> world \<Rightarrow> (int \<times> 64 word) \<times> SopsFS \<times> world" where
  "Open path flags fs w =
     (if \<not> HasPrefix path ''/secrets/'' then ((- ENOENT, 0), fs, w)
      else (case parseSopsKeyPath path of
              None \<Rightarrow> ((- ENOENT, 0), fs, w)
            | Some keyPath \<Rightarrow>
                (case navigateToPath fs keyPath of
                   None \<Rightarrow> ((- ENOENT, 0), fs, w)
                 | Some nd \<Rightarrow>
                     if isMap nd then ((- EISDIR, 0), fs, w)
                     else ((0, 0), fs, w))))"

definition Release :: "string \<Rightarrow> 64 word \<Rightarrow> SopsFS \<Rightarrow> world \<Rightarrow> int \<times> SopsFS \<times> world" where
  "Release path fh fs w = (0, fs, w)"

text \<open>
  The cache lookup of \<open>readSecret\<close>, done under the read lock at instant \<open>now\<close>: the
  cached value when the entry is there and younger than the TTL.
\<close>

definition cacheLookup :: "SopsFS \<Rightarrow> string \<Rightarrow> Time \<Rightarrow> string option" where
  "cacheLookup fs path now =
     (case secretsCache fs path of
        None \<Rightarrow> None
      | Some cached \<Rightarrow>
          if Sub now (timestamp cached) < secretCacheTTL then Some (cvalue cached)
          else None)"

text \<open>The store of \<open>readSecret\<close>, done under the write lock at instant \<open>now\<close>.\<close>

definition cacheStore :: "SopsFS \<Rightarrow> string \<Rightarrow> string \<Rightarrow> Time \<Rightarrow> SopsFS" where
  "cacheStore fs path secret now =
     fs\<lparr>secretsCache := (secretsCache fs)(path \<mapsto> \<lparr>cvalue = secret, timestamp = now\<rparr>)\<rparr>"

datatype error = ErrNotFound | ErrInternal | ErrDecrypt DecryptError

text \<open>
  \<open>readSecret\<close> reads the clock twice: at the lookup (\<open>tLookup\<close>) and, after the
  decryption has returned, at the store (\<open>tStore\<close>).
\<close>

definition readSecret ::
    "Time \<Rightarrow> Time \<Rightarrow> string \<Rightarrow> SopsFS \<Rightarrow> world \<Rightarrow> (error + string) \<times> SopsFS \<times> world" where
  "readSecret tLookup tStore path fs w =
     (case parseSopsKeyPath path of
        None \<Rightarrow> (Inl ErrNotFound, fs, w)
      | Some keyPath \<Rightarrow>
          if sopsClient fs = None then (Inl ErrInternal, fs, w)
          else (case cacheLookup fs path tLookup of
                  Some v \<Rightarrow> (Inr v, fs, w)
                | None \<Rightarrow>
                    (case DecryptKey (secretsWSLPath fs) keyPath w of
                       (Inl err, w') \<Rightarrow> (Inl (ErrDecrypt err), fs, w')
                     | (Inr secret, w') \<Rightarrow> (Inr secret, cacheStore fs path secret tStore, w'))))"

text \<open>
  \<open>Read\<close> fills the caller's buffer and returns the number of bytes or a negative error
  number. The offset is a signed 64-bit integer; slicing \<open>data[ofst:]\<close> with a negative
  offset is a run-time panic.
\<close>

datatype 'a outcome = Returns 'a | Panics

definition Read ::
    "Time \<Rightarrow> Time \<Rightarrow> string \<Rightarrow> string \<Rightarrow> 64 word \<Rightarrow> 64 word \<Rightarrow> SopsFS \<Rightarrow> world
      \<Rightarrow> (int \<times> string) outcome \<times> SopsFS \<times> world" where
  "Read tLookup tStore path buff ofst fh fs w =
     (if \<not> HasPrefix path ''/secrets/'' then (Returns (- ENOENT, buff), fs, w)
      else (case readSecret tLookup tStore path fs w of
              (Inl err, fs', w') \<Rightarrow> (Returns (- EIO, buff), fs', w')
            | (Inr secret, fs', w') \<Rightarrow>
                if int (length secret) \<le> sint ofst then (Returns (0, buff), fs', w')
                else if sint ofst < 0 then (Panics, fs', w')
                else (let src = drop (nat (sint ofst)) secret;
                          n = min (length buff) (length src)
                      in (Returns (int n, take n src @ drop n buff), fs', w'))))"

text \<open>
  \<open>Readdir\<close> reports entries through the callback \<open>fill\<close>; the model returns the calls
  made, in the order of the association list (Go leaves the order of a map open).
\<close>

definition dirEntries :: "(string \<times> node) list \<Rightarrow> (string \<times> Stat_t option) list" where
  "dirEntries m =
     map (\<lambda>(name, v). (name, Some \<lparr>Mode = (if isMap v then dirMode else fileMode), Size = 0\<rparr>)) m"

definition Readdir ::
    "string \<Rightarrow> 64 word \<Rightarrow> 64 word \<Rightarrow> SopsFS \<Rightarrow> world
      \<Rightarrow> (int \<times> (string \<times> Stat_t option) list) \<times> SopsFS \<times> world" where
  "Readdir path ofst fh fs w =
     (let dots = [(''.'', None), (''..'', None)]
      in if path = ''/'' then
           ((0, dots @ [(''secrets'', Some \<lparr>Mode = dirMode, Size = 0\<rparr>)]), fs, w)
         else if path = ''/secrets'' then ((0, dots @ dirEntries (secretsTree fs)), fs, w)
         else if \<not> HasPrefix path ''/secrets/'' then ((- ENOENT, dots), fs, w)
         else (case parseSopsKeyPath path of
                 None \<Rightarrow> ((- ENOENT, dots), fs, w)
               | Some keyPath \<Rightarrow>
                   (case navigateToPath fs keyPath of
                      None \<Rightarrow> ((- ENOENT, dots), fs, w)
                    | Some (YMap m) \<Rightarrow> ((0, dots @ dirEntries m), fs, w)
                    | Some _ \<Rightarrow> ((- ENOTDIR, dots), fs, w))))"

definition Opendir :: "string \<Rightarrow> SopsFS \<Rightarrow> world \<Rightarrow> (int \<times> 64 word) \<times> SopsFS \<times> world" where
  "Opendir path fs w =
     (if path = ''/'' \<or> path = ''/secrets'' then ((0, 0), fs, w)
      else if \<not> HasPrefix path ''/secrets/'' then ((- ENOENT, 0), fs, w)
      else (case parseSopsKeyPath path of
              None \<Rightarrow> ((- ENOENT, 0), fs, w)
            | Some keyPath \<Rightarrow>
                (case navigateToPath fs keyPath of
                   None \<Rightarrow> ((- ENOENT, 0), fs, w)
                 | Some nd \<Rightarrow>
                     if \<not> isMap nd then ((- ENOTDIR, 0), fs, w)
                     else ((0, 0), fs, w))))"

definition Releasedir :: "string \<Rightarrow> 64 word \<Rightarrow> SopsFS \<Rightarrow> world \<Rightarrow> int \<times> SopsFS \<times> world" where
  "Releasedir path fh fs w = (0, fs, w)"

text \<open>
  One pass of \<open>cacheCleanupLoop\<close>, at the tick read as \<open>now\<close>: every entry older than
  the TTL is deleted. The loop runs one pass per tick of its ticker.
\<close>

definition cacheCleanupPass :: "Time \<Rightarrow> SopsFS \<Rightarrow> SopsFS" where
  "cacheCleanupPass now fs =
     fs\<lparr>secretsCache :=
          (\<lambda>path. case secretsCache fs path of
                     None \<Rightarrow> None
                   | Some cached \<Rightarrow>
                       if secretCacheTTL < Sub now (timestamp cached) then None
                       else Some cached)\<rparr>"

fun cacheCleanupLoop :: "Time list \<Rightarrow> SopsFS \<Rightarrow> SopsFS" where
  "cacheCleanupLoop [] fs = fs"
| "cacheCleanupLoop (now # ticks) fs = cacheCleanupLoop ticks (cacheCleanupPass now fs)"

definition NewSopsFS ::
    "SopsClient option \<Rightarrow> string \<Rightarrow> world \<Rightarrow> (StructureError + SopsFS) \<times> world" where
  "NewSopsFS client path w =
     (let fs = \<lparr>sopsClient = client, secretsWSLPath = path, secretsTree = [],
                 secretsCache = Map.empty\<rparr>
      in case refreshSecretsStructure fs w of
           (Some err, fs', w') \<Rightarrow> (Inl err, w')
         | (None, fs', w') \<Rightarrow> (Inr fs', w'))"

section \<open>Trees without an empty key, and a small instance\<close>

text \<open>
  A tree in which no mapping, at any depth, has the empty string as a key.
\<close>

fun noEmptyKey :: "node \<Rightarrow> bool"
  and noEmptyKeys :: "(string \<times> node) list \<Rightarrow> bool" where
  "noEmptyKey (YMap m) = noEmptyKeys m"
| "noEmptyKey (YStr s) = True"
| "noEmptyKey (YOther s) = True"
| "noEmptyKeys [] = True"
| "noEmptyKeys (kv # rest) = (fst kv \<noteq> [] \<and> noEmptyKey (snd kv) \<and> noEmptyKeys rest)"

text \<open>
  A secrets file with one nested secret and one at the top, its structure as the parser
  returns it (values still encrypted, SOPS metadata under \<open>sops\<close>), and its plaintext.
\<close>

definition exampleSource :: "(string \<times> node) list" where
  "exampleSource =
     [(''database'', YMap [(''password'', YStr ''ENC[a]'')]),
      (''api_key'', YStr ''ENC[b]''),
      (''sops'', YMap [(''version'', YStr ''3.8.1'')])]"

definition examplePlain :: node where
  "examplePlain =
     YMap [(''database'', YMap [(''password'', YStr ''hunter2'')]),
           (''api_key'', YStr ''s3cr3t'')]"

definition exampleWorld :: world where
  "exampleWorld =
     \<lparr>osReadFile = (\<lambda>f. if f = ''secrets.yaml'' then Some ''data'' else None),
      yamlUnmarshal = (\<lambda>d. if d = ''data'' then Some exampleSource else None),
      decryptedDocument =
        (\<lambda>n f. if f = ''secrets.yaml'' then Inr examplePlain else Inl ReadEncryptedFile),
      fmtSprintv = (\<lambda>v. ''<value>''),
      decryptCalls = []\<rparr>"

definition exampleFS :: SopsFS where
  "exampleFS =
     \<lparr>sopsClient = Some \<lparr>keyserviceAddr = ''localhost:5000''\<rparr>,
      secretsWSLPath = ''secrets.yaml'',
      secretsTree = delete exampleSource ''sops'',
      secretsCache = Map.empty\<rparr>"

text \<open>The same filesystem when the key service cannot decrypt.\<close>

definition deniedWorld :: world where
  "deniedWorld = exampleWorld\<lparr>decryptedDocument := (\<lambda>n f. Inl SopsDecryptFailed)\<rparr>"

text \<open>
  The same filesystem holding an entry for \<open>/secrets/api_key\<close> that was stored at
  instant 0.
\<close>

definition staleFS :: SopsFS where
  "staleFS =
     exampleFS\<lparr>secretsCache :=
       [''/secrets/api_key'' \<mapsto> \<lparr>cvalue = ''old'', timestamp = 0\<rparr>]\<rparr>"

section \<open>Facts about the library functions\<close>

lemma Split_nonempty: "Split s c \<noteq> []"
  by (induction s) (auto split: list.splits)

lemma TrimSuffix_cases: "TrimSuffix s suf = s \<or> s = TrimSuffix s suf @ suf"
proof (cases "HasSuffix s suf")
  case True
  then have "drop (length s - length suf) s = suf"
    by (simp add: HasSuffix_def)
  then have "take (length s - length suf) s @ suf = s"
    by (metis append_take_drop_id)
  with True show ?thesis by (simp add: TrimSuffix_def)
next
  case False
  then show ?thesis by (simp add: TrimSuffix_def)
qed

lemma TrimSuffix_unchanged: "\<not> HasSuffix s suf \<Longrightarrow> TrimSuffix s suf = s"
  by (simp add: TrimSuffix_def)

lemma strip_both_cases:
  "\<exists>suf \<in> {'''', ''.yaml'', ''.txt'', ''.txt.yaml''}.
     k = TrimSuffix (TrimSuffix k ''.yaml'') ''.txt'' @ suf"
proof -
  let ?a = "TrimSuffix k ''.yaml''"
  let ?b = "TrimSuffix ?a ''.txt''"
  consider "?a = k" "?b = ?a" | "?a = k" "?a = ?b @ ''.txt''"
    | "k = ?a @ ''.yaml''" "?b = ?a" | "k = ?a @ ''.yaml''" "?a = ?b @ ''.txt''"
    using TrimSuffix_cases [of k "''.yaml''"] TrimSuffix_cases [of ?a "''.txt''"] by blast
  then show ?thesis
  proof cases
    case 1 then show ?thesis by simp
  next
    case 2 then show ?thesis by (metis insertCI)
  next
    case 3 then show ?thesis by (metis insertCI)
  next
    case 4
    then have "k = ?b @ ''.txt.yaml''" by (metis append.assoc append_Cons append_Nil)
    then show ?thesis by (metis insertCI)
  qed
qed

lemmas string_defs = TrimPrefix_def HasPrefix_def TrimSuffix_def HasSuffix_def

section \<open>Path derivation\<close>

lemma parseSopsKeyPath_Some:
  "parseSopsKeyPath p = Some ks \<longleftrightarrow>
     (\<exists>segs. Split (TrimPrefix p ''/'') CHR ''/'' = ''secrets'' # segs \<and> segs \<noteq> [] \<and>
        ks = map (\<lambda>k. TrimSuffix (TrimSuffix k ''.yaml'') ''.txt'') segs)"
  by (auto simp: parseSopsKeyPath_def split: list.splits if_splits)

text \<open>
  C1, as the code has it. The loop of \<open>parseSopsKeyPath\<close> runs over every segment after
  the mount root, not the last one only, and removes a trailing \<open>.yaml\<close> and then a
  trailing \<open>.txt\<close>. So the key path has as many segments as the path has after
  \<open>secrets\<close>, in the same order; each segment loses one of the endings \<open>.yaml\<close>, \<open>.txt\<close>,
  \<open>.txt.yaml\<close> or nothing; and a segment that ends in neither suffix is unchanged.
\<close>

theorem parseSopsKeyPath_strips_every_segment:
  assumes "parseSopsKeyPath p = Some ks"
  shows "\<exists>segs. Split (TrimPrefix p ''/'') CHR ''/'' = ''secrets'' # segs \<and>
           length ks = length segs \<and>
           (\<forall>i < length segs.
              ks ! i = TrimSuffix (TrimSuffix (segs ! i) ''.yaml'') ''.txt'' \<and>
              (\<exists>suf \<in> {'''', ''.yaml'', ''.txt'', ''.txt.yaml''}. segs ! i = ks ! i @ suf) \<and>
              (\<not> HasSuffix (segs ! i) ''.yaml'' \<and> \<not> HasSuffix (segs ! i) ''.txt''
                 \<longrightarrow> ks ! i = segs ! i))"
proof -
  from assms obtain segs where
    s: "Split (TrimPrefix p ''/'') CHR ''/'' = ''secrets'' # segs" and
    k: "ks = map (\<lambda>k. TrimSuffix (TrimSuffix k ''.yaml'') ''.txt'') segs"
    by (auto simp: parseSopsKeyPath_Some)
  have "\<forall>i < length segs.
          ks ! i = TrimSuffix (TrimSuffix (segs ! i) ''.yaml'') ''.txt'' \<and>
          (\<exists>suf \<in> {'''', ''.yaml'', ''.txt'', ''.txt.yaml''}. segs ! i = ks ! i @ suf) \<and>
          (\<not> HasSuffix (segs ! i) ''.yaml'' \<and> \<not> HasSuffix (segs ! i) ''.txt''
             \<longrightarrow> ks ! i = segs ! i)"
  proof (intro allI impI)
    fix i assume i: "i < length segs"
    then have e: "ks ! i = TrimSuffix (TrimSuffix (segs ! i) ''.yaml'') ''.txt''"
      by (simp add: k)
    show "ks ! i = TrimSuffix (TrimSuffix (segs ! i) ''.yaml'') ''.txt'' \<and>
          (\<exists>suf \<in> {'''', ''.yaml'', ''.txt'', ''.txt.yaml''}. segs ! i = ks ! i @ suf) \<and>
          (\<not> HasSuffix (segs ! i) ''.yaml'' \<and> \<not> HasSuffix (segs ! i) ''.txt''
             \<longrightarrow> ks ! i = segs ! i)"
      using e strip_both_cases [of "segs ! i"] by (simp add: TrimSuffix_unchanged)
  qed
  with s k show ?thesis by simp
qed

theorem parseSopsKeyPath_strips_every_segment_witness:
  "parseSopsKeyPath ''/secrets/postgres/test_pass.yaml'' = Some [''postgres'', ''test_pass''] \<and>
   (\<exists>segs. Split (TrimPrefix ''/secrets/postgres/test_pass.yaml'' ''/'') CHR ''/''
             = ''secrets'' # segs \<and>
           length [''postgres'', ''test_pass''] = length segs)"
proof -
  have h: "parseSopsKeyPath ''/secrets/postgres/test_pass.yaml''
             = Some [''postgres'', ''test_pass'']"
    by (simp add: parseSopsKeyPath_def string_defs)
  from parseSopsKeyPath_strips_every_segment [OF h] h show ?thesis by blast
qed

text \<open>
  C1 as written fails twice: a suffix is stripped from a segment that is not the last
  (\<open>db.yaml\<close> becomes \<open>db\<close>), and the last segment can lose two suffixes
  (\<open>pass.txt.yaml\<close> becomes \<open>pass\<close>).
\<close>

theorem parseSopsKeyPath_last_only_counterexample:
  "parseSopsKeyPath ''/secrets/db.yaml/pass'' = Some [''db'', ''pass''] \<and>
   parseSopsKeyPath ''/secrets/pass.txt.yaml'' = Some [''pass'']"
  by (simp add: parseSopsKeyPath_def string_defs)

text \<open>
  C3: the derivation is total. For every string it yields either no key path (the Go
  \<open>nil\<close>) or a key path of at least one segment; the two slice accesses of the source,
  \<open>parts[0]\<close> and \<open>parts[1:]\<close>, are reached only when \<open>parts\<close> has two elements or more.
\<close>

theorem parseSopsKeyPath_total:
  "parseSopsKeyPath p = None \<or> (\<exists>ks. parseSopsKeyPath p = Some ks \<and> 1 \<le> length ks)"
  by (auto simp: parseSopsKeyPath_def split: list.splits)

theorem parseSopsKeyPath_total_witness:
  "parseSopsKeyPath '''' = None \<and> parseSopsKeyPath ''/secrets/a'' = Some [''a''] \<and>
   (1::nat) \<le> length [''a'']"
  using parseSopsKeyPath_total [of "''''"] parseSopsKeyPath_total [of "''/secrets/a''"]
  by (simp add: parseSopsKeyPath_def string_defs)

lemma first_segment_not_secrets:
  "hd (Split (TrimPrefix path ''/'') CHR ''/'') \<noteq> ''secrets'' \<Longrightarrow> parseSopsKeyPath path = None"
  by (auto simp: parseSopsKeyPath_def split: list.splits)

text \<open>
  Under the mount root the derivation always succeeds: the key path is made of the
  segments after \<open>/secrets/\<close>.
\<close>

lemma HasPrefix_secrets_Split:
  assumes "HasPrefix path ''/secrets/''"
  shows "Split (TrimPrefix path ''/'') CHR ''/''
           = ''secrets'' # Split (drop (length ''/secrets/'') path) CHR ''/''"
proof -
  from assms have "take (length ''/secrets/'') path = ''/secrets/''"
    unfolding HasPrefix_def by blast
  then have p: "path = ''/secrets/'' @ drop (length ''/secrets/'') path"
    by (metis append_take_drop_id)
  have "TrimPrefix (''/secrets/'' @ drop (length ''/secrets/'') path) ''/''
          = ''secrets/'' @ drop (length ''/secrets/'') path"
    by (simp add: TrimPrefix_def HasPrefix_def)
  with p have "TrimPrefix path ''/'' = ''secrets/'' @ drop (length ''/secrets/'') path"
    by simp
  then show ?thesis
    using Split_nonempty [of "drop (length ''/secrets/'') path" "CHR ''/''"]
    by (simp split: list.splits)
qed

lemma HasPrefix_secrets_parse:
  assumes "HasPrefix path ''/secrets/''"
  shows "parseSopsKeyPath path =
           Some (map (\<lambda>k. TrimSuffix (TrimSuffix k ''.yaml'') ''.txt'')
                   (Split (drop (length ''/secrets/'') path) CHR ''/''))"
  using HasPrefix_secrets_Split [OF assms]
    Split_nonempty [of "drop (length ''/secrets/'') path" "CHR ''/''"]
  by (simp add: parseSopsKeyPath_def split: list.splits)

lemma TrimSuffix_empty: "TrimSuffix (TrimSuffix [] ''.yaml'') ''.txt'' = []"
  by (simp add: TrimSuffix_def HasSuffix_def)

lemma parse_api_key: "parseSopsKeyPath ''/secrets/api_key'' = Some [''api_key'']"
  by (simp add: parseSopsKeyPath_def string_defs)

lemma HasPrefix_api_key: "HasPrefix ''/secrets/api_key'' ''/secrets/''"
  by (simp add: HasPrefix_def)

section \<open>The instance\<close>

lemma exampleFS_fields:
  "sopsClient exampleFS \<noteq> None"
  "secretsWSLPath exampleFS = ''secrets.yaml''"
  "secretsCache exampleFS = Map.empty"
  "secretsTree exampleFS =
     [(''database'', YMap [(''password'', YStr ''ENC[a]'')]), (''api_key'', YStr ''ENC[b]'')]"
  by (simp_all add: exampleFS_def exampleSource_def delete_def)

lemma DecryptKey_api_key:
  "DecryptKey ''secrets.yaml'' [''api_key''] exampleWorld
     = (Inr ''s3cr3t'', exampleWorld\<lparr>decryptCalls := [(''secrets.yaml'', [''api_key''])]\<rparr>)"
  by (simp add: DecryptKey_def exampleWorld_def examplePlain_def)

section \<open>The cache\<close>

lemma secretCacheTTL_value: "secretCacheTTL = 300000000000"
  by (simp add: secretCacheTTL_def Minute_def)

text \<open>
  The TTL lies inside the range of \<open>Duration\<close>, so the saturation of \<open>Sub\<close> never
  changes a comparison with it.
\<close>

lemma Sub_less_TTL: "Sub t u < secretCacheTTL \<longleftrightarrow> t - u < secretCacheTTL"
  by (simp add: Sub_def Let_def minDuration_def maxDuration_def secretCacheTTL_value)

lemma TTL_less_Sub: "secretCacheTTL < Sub t u \<longleftrightarrow> secretCacheTTL < t - u"
  by (simp add: Sub_def Let_def minDuration_def maxDuration_def secretCacheTTL_value)

lemma cacheLookup_cacheStore:
  "cacheLookup (cacheStore fs path v T) path now
     = (if now - T < secretCacheTTL then Some v else None)"
  by (simp add: cacheLookup_def cacheStore_def Sub_less_TTL)

lemma cacheLookup_after_pass:
  assumes "secretCacheTTL \<le> now - T" and "now \<le> later"
  shows "cacheLookup (cacheCleanupPass now (cacheStore fs path v T)) path later = None"
proof -
  from assms have "\<not> later - T < secretCacheTTL" by simp
  then show ?thesis
    by (simp add: cacheLookup_def cacheCleanupPass_def cacheStore_def Sub_less_TTL)
qed

lemma readSecret_miss:
  assumes "parseSopsKeyPath path = Some keyPath" and "sopsClient fs \<noteq> None"
    and "cacheLookup fs path tLookup = None"
  shows "readSecret tLookup tStore path fs w =
           (case DecryptKey (secretsWSLPath fs) keyPath w of
              (Inl err, w') \<Rightarrow> (Inl (ErrDecrypt err), fs, w')
            | (Inr secret, w') \<Rightarrow> (Inr secret, cacheStore fs path secret tStore, w'))"
  using assms by (auto simp: readSecret_def)

lemma readSecret_hit:
  assumes "parseSopsKeyPath path = Some keyPath" and "sopsClient fs \<noteq> None"
    and "cacheLookup fs path tLookup = Some v"
  shows "readSecret tLookup tStore path fs w = (Inr v, fs, w)"
  using assms by (auto simp: readSecret_def)

lemma snd_DecryptKey:
  "snd (DecryptKey filePath keyPath w)
     = w\<lparr>decryptCalls := decryptCalls w @ [(filePath, keyPath)]\<rparr>"
  by (simp add: DecryptKey_def Let_def split: sum.splits node.splits)

lemma readSecret_api_key:
  "readSecret 0 7 ''/secrets/api_key'' exampleFS exampleWorld
     = (Inr ''s3cr3t'', cacheStore exampleFS ''/secrets/api_key'' ''s3cr3t'' 7,
        exampleWorld\<lparr>decryptCalls := [(''secrets.yaml'', [''api_key''])]\<rparr>)"
proof -
  have m: "cacheLookup exampleFS ''/secrets/api_key'' 0 = None"
    by (simp add: cacheLookup_def exampleFS_fields)
  show ?thesis
    by (simp add: readSecret_miss [OF parse_api_key exampleFS_fields(1) m] exampleFS_fields(2)
        DecryptKey_api_key)
qed

text \<open>
  A read that follows a store made at \<open>T\<close>: within the TTL it returns the stored value
  and touches neither the cache nor the decryption client.
\<close>

lemma readSecret_after_store:
  assumes "parseSopsKeyPath path = Some keyPath" and "sopsClient fs \<noteq> None"
    and "now - T < secretCacheTTL"
  shows "readSecret now tStore path (cacheStore fs path v T) w
           = (Inr v, cacheStore fs path v T, w)"
proof -
  have c: "sopsClient (cacheStore fs path v T) \<noteq> None"
    using assms(2) by (simp add: cacheStore_def)
  have "cacheLookup (cacheStore fs path v T) path now = Some v"
    using assms(3) by (simp add: cacheLookup_cacheStore)
  then show ?thesis
    by (rule readSecret_hit [OF assms(1) c])
qed

text \<open>
  C2: the TTL is five minutes. A lookup at \<open>now\<close> of a path stored at \<open>T\<close> is a hit
  with the stored value exactly when \<open>now - T < TTL\<close>. After a cleanup pass at \<open>now\<close>
  with \<open>now - T \<ge> TTL\<close>, a lookup at any instant from \<open>now\<close> on is a miss. (The pass
  removes entries older than the TTL; an entry of age exactly TTL stays, and the lookup
  refuses it.)
\<close>

theorem cache_hit_iff_fresh:
  "secretCacheTTL = 5 * 60 * 1000000000 \<and>
   cacheLookup (cacheStore fs path v T) path now
     = (if now - T < secretCacheTTL then Some v else None) \<and>
   (secretCacheTTL \<le> now - T \<and> now \<le> later \<longrightarrow>
      cacheLookup (cacheCleanupPass now (cacheStore fs path v T)) path later = None)"
  using cacheLookup_cacheStore cacheLookup_after_pass
  by (simp add: secretCacheTTL_value)

theorem cache_hit_iff_fresh_witness:
  "cacheLookup (cacheStore exampleFS ''/secrets/api_key'' ''s3cr3t'' 1000) ''/secrets/api_key''
     300000000999 = Some ''s3cr3t'' \<and>
   cacheLookup (cacheStore exampleFS ''/secrets/api_key'' ''s3cr3t'' 1000) ''/secrets/api_key''
     300000001000 = None \<and>
   secretCacheTTL \<le> 300000001000 - 1000 \<and> (300000001000::int) \<le> 300000001000 \<and>
   cacheLookup (cacheCleanupPass 300000001000
       (cacheStore exampleFS ''/secrets/api_key'' ''s3cr3t'' 1000)) ''/secrets/api_key''
     300000001000 = None"
  using cache_hit_iff_fresh [of exampleFS "''/secrets/api_key''" "''s3cr3t''" 1000 300000000999]
    cache_hit_iff_fresh [of exampleFS "''/secrets/api_key''" "''s3cr3t''" 1000 300000001000
      300000001000]
  by (simp add: secretCacheTTL_value)

text \<open>
  C7: the lookup of the read path does not write. When the entry of a path is present
  but its age has reached the TTL, the lookup reports a miss; the read that follows
  either fails and leaves the filesystem object as it was, entry included, or succeeds
  and overwrites that one entry with the fresh value. In both cases the path still has
  an entry. Removal is the work of the cleanup pass, which deletes the entry once its
  age exceeds the TTL.
\<close>

theorem expired_entry_is_miss_and_stays:
  assumes "secretsCache fs path = Some cached"
    and "secretCacheTTL \<le> now - timestamp cached"
  shows "cacheLookup fs path now = None \<and>
         (case readSecret now tStore path fs w of
            (Inl err, fs', w') \<Rightarrow> fs' = fs
          | (Inr v, fs', w') \<Rightarrow>
              secretsCache fs'
                = (secretsCache fs)(path \<mapsto> \<lparr>cvalue = v, timestamp = tStore\<rparr>)) \<and>
         secretsCache (fst (snd (readSecret now tStore path fs w))) path \<noteq> None \<and>
         (secretCacheTTL < sweep - timestamp cached \<longrightarrow>
            secretsCache (cacheCleanupPass sweep fs) path = None)"
proof -
  from assms have miss: "cacheLookup fs path now = None"
    by (simp add: cacheLookup_def Sub_less_TTL)
  have "(case readSecret now tStore path fs w of
            (Inl err, fs', w') \<Rightarrow> fs' = fs
          | (Inr v, fs', w') \<Rightarrow>
              secretsCache fs'
                = (secretsCache fs)(path \<mapsto> \<lparr>cvalue = v, timestamp = tStore\<rparr>))"
    using miss
    by (auto simp: readSecret_def cacheStore_def split: option.splits sum.splits prod.splits)
  moreover have "secretsCache (fst (snd (readSecret now tStore path fs w))) path \<noteq> None"
    using miss assms(1)
    by (auto simp: readSecret_def cacheStore_def split: option.splits sum.splits prod.splits)
  moreover have "secretCacheTTL < sweep - timestamp cached \<longrightarrow>
                 secretsCache (cacheCleanupPass sweep fs) path = None"
    using assms(1) by (simp add: cacheCleanupPass_def TTL_less_Sub)
  ultimately show ?thesis using miss by simp
qed

theorem expired_entry_is_miss_and_stays_witness:
  "secretsCache staleFS ''/secrets/api_key'' = Some \<lparr>cvalue = ''old'', timestamp = 0\<rparr> \<and>
   secretCacheTTL \<le> 300000000000 - timestamp \<lparr>cvalue = ''old'', timestamp = 0\<rparr> \<and>
   cacheLookup staleFS ''/secrets/api_key'' 300000000000 = None \<and>
   readSecret 300000000000 300000000007 ''/secrets/api_key'' staleFS deniedWorld
     = (Inl (ErrDecrypt SopsDecryptFailed), staleFS,
        deniedWorld\<lparr>decryptCalls := [(''secrets.yaml'', [''api_key''])]\<rparr>)"
proof -
  have h1: "secretsCache staleFS ''/secrets/api_key'' = Some \<lparr>cvalue = ''old'', timestamp = 0\<rparr>"
    by (simp add: staleFS_def)
  have h2: "secretCacheTTL \<le> 300000000000 - timestamp \<lparr>cvalue = ''old'', timestamp = 0\<rparr>"
    by (simp add: secretCacheTTL_value)
  have m: "cacheLookup staleFS ''/secrets/api_key'' 300000000000 = None"
    using expired_entry_is_miss_and_stays [OF h1 h2] by simp
  have c: "sopsClient staleFS \<noteq> None" "secretsWSLPath staleFS = ''secrets.yaml''"
    by (simp_all add: staleFS_def exampleFS_def)
  have d: "DecryptKey ''secrets.yaml'' [''api_key''] deniedWorld
             = (Inl SopsDecryptFailed,
                deniedWorld\<lparr>decryptCalls := [(''secrets.yaml'', [''api_key''])]\<rparr>)"
    by (simp add: DecryptKey_def deniedWorld_def exampleWorld_def)
  have "readSecret 300000000000 300000000007 ''/secrets/api_key'' staleFS deniedWorld
     = (Inl (ErrDecrypt SopsDecryptFailed), staleFS,
        deniedWorld\<lparr>decryptCalls := [(''secrets.yaml'', [''api_key''])]\<rparr>)"
    by (simp add: readSecret_miss [OF parse_api_key c(1) m] c(2) d)
  with h1 h2 m show ?thesis by simp
qed

section \<open>The operations\<close>

text \<open>
  C4: an attribute query on a path that is neither \<open>/\<close> nor \<open>/secrets\<close>, and for which
  the derivation yields no key path or whose first segment is not \<open>secrets\<close>, returns
  \<open>-ENOENT\<close> and writes nothing into \<open>stat\<close>, whatever the tree and the cache hold.
\<close>

theorem Getattr_invalid_path_ENOENT:
  assumes "path \<noteq> ''/''" and "path \<noteq> ''/secrets''"
    and "parseSopsKeyPath path = None \<or>
         hd (Split (TrimPrefix path ''/'') CHR ''/'') \<noteq> ''secrets''"
  shows "Getattr path stat fh fs w = ((- ENOENT, stat), fs, w)"
proof -
  from assms(3) have "parseSopsKeyPath path = None"
    using first_segment_not_secrets by blast
  with assms(1,2) show ?thesis
    by (simp add: Getattr_def)
qed

theorem Getattr_invalid_path_ENOENT_witness:
  "parseSopsKeyPath ''/other/path'' = None \<and>
   hd (Split (TrimPrefix ''/other/path'' ''/'') CHR ''/'') = ''other'' \<and>
   Getattr ''/other/path'' \<lparr>Mode = 0, Size = 0\<rparr> 0 exampleFS exampleWorld
     = ((- 2, \<lparr>Mode = 0, Size = 0\<rparr>), exampleFS, exampleWorld) \<and>
   parseSopsKeyPath ''secrets'' = None \<and>
   Getattr ''secrets'' \<lparr>Mode = 0, Size = 0\<rparr> 0 exampleFS exampleWorld
     = ((- 2, \<lparr>Mode = 0, Size = 0\<rparr>), exampleFS, exampleWorld)"
  using Getattr_invalid_path_ENOENT
      [of "''/other/path''" "\<lparr>Mode = 0, Size = 0\<rparr>" 0 exampleFS exampleWorld]
    Getattr_invalid_path_ENOENT
      [of "''secrets''" "\<lparr>Mode = 0, Size = 0\<rparr>" 0 exampleFS exampleWorld]
  by (simp add: parseSopsKeyPath_def string_defs ENOENT_def)

text \<open>
  C5: when the content of the file, cached or just decrypted, is \<open>secret\<close>, a read at
  an offset at or beyond its length returns 0 and leaves the buffer alone; a read at an
  offset from 0 up to the length copies the content from that offset on into the front
  of the buffer, as much as fits, and returns the number of bytes copied.
\<close>

theorem Read_serves_slice_by_offset:
  assumes "HasPrefix path ''/secrets/''"
    and "readSecret tLookup tStore path fs w = (Inr secret, fs', w')"
  shows "(int (length secret) \<le> sint ofst \<longrightarrow>
            Read tLookup tStore path buff ofst fh fs w = (Returns (0, buff), fs', w')) \<and>
         (0 \<le> sint ofst \<and> sint ofst < int (length secret) \<longrightarrow>
            (\<exists>n out. Read tLookup tStore path buff ofst fh fs w
                        = (Returns (int n, out), fs', w') \<and>
               n = min (length buff) (length secret - nat (sint ofst)) \<and>
               length out = length buff \<and>
               take n out = take n (drop (nat (sint ofst)) secret) \<and>
               drop n out = drop n buff))"
proof (intro conjI impI)
  assume "int (length secret) \<le> sint ofst"
  with assms show "Read tLookup tStore path buff ofst fh fs w = (Returns (0, buff), fs', w')"
    by (simp add: Read_def)
next
  assume o: "0 \<le> sint ofst \<and> sint ofst < int (length secret)"
  let ?src = "drop (nat (sint ofst)) secret"
  let ?n = "min (length buff) (length ?src)"
  let ?out = "take ?n ?src @ drop ?n buff"
  from assms o
  have r: "Read tLookup tStore path buff ofst fh fs w = (Returns (int ?n, ?out), fs', w')"
    by (simp add: Read_def Let_def)
  have l: "length (take ?n ?src) = ?n" by simp
  have "length ?out = length buff" by auto
  moreover have "take ?n ?out = take ?n ?src"
    using l by (metis append_eq_conv_conj)
  moreover have "drop ?n ?out = drop ?n buff"
    using l by (metis append_eq_conv_conj)
  ultimately
  show "\<exists>n out. Read tLookup tStore path buff ofst fh fs w = (Returns (int n, out), fs', w') \<and>
               n = min (length buff) (length secret - nat (sint ofst)) \<and>
               length out = length buff \<and>
               take n out = take n (drop (nat (sint ofst)) secret) \<and>
               drop n out = drop n buff"
    using r by (intro exI [of _ ?n] exI [of _ ?out]) simp
qed

theorem Read_serves_slice_by_offset_witness:
  "HasPrefix ''/secrets/api_key'' ''/secrets/'' \<and>
   fst (readSecret 0 7 ''/secrets/api_key'' exampleFS exampleWorld) = Inr ''s3cr3t'' \<and>
   fst (Read 0 7 ''/secrets/api_key'' ''--------'' 6 0 exampleFS exampleWorld)
     = Returns (0, ''--------'') \<and>
   fst (Read 0 7 ''/secrets/api_key'' ''--------'' 2 0 exampleFS exampleWorld)
     = Returns (4, ''cr3t----'') \<and>
   fst (Read 0 7 ''/secrets/api_key'' ''--'' 2 0 exampleFS exampleWorld)
     = Returns (2, ''cr'')"
proof -
  note w = Read_serves_slice_by_offset [OF HasPrefix_api_key readSecret_api_key]
  have a: "fst (Read 0 7 ''/secrets/api_key'' ''--------'' 6 0 exampleFS exampleWorld)
     = Returns (0, ''--------'')"
    using w [of 6 "''--------''" 0] by simp
  have b: "fst (Read 0 7 ''/secrets/api_key'' ''--------'' 2 0 exampleFS exampleWorld)
     = Returns (4, ''cr3t----'')"
    by (simp add: Read_def HasPrefix_api_key readSecret_api_key)
  have c: "fst (Read 0 7 ''/secrets/api_key'' ''--'' 2 0 exampleFS exampleWorld)
     = Returns (2, ''cr'')"
    by (simp add: Read_def HasPrefix_api_key readSecret_api_key)
  show ?thesis using a b c HasPrefix_api_key readSecret_api_key by simp
qed

text \<open>
  The offset is a signed integer. Below zero the slice expression of \<open>Read\<close> is out of
  bounds: the call panics. File offsets handed over by the FUSE host are not negative.
\<close>

lemma Read_negative_offset_panics:
  assumes "HasPrefix path ''/secrets/''"
    and "readSecret tLookup tStore path fs w = (Inr secret, fs', w')"
    and "sint ofst < 0"
  shows "Read tLookup tStore path buff ofst fh fs w = (Panics, fs', w')"
  using assms by (simp add: Read_def)

text \<open>
  C6: a read under the mount root that misses the cache and whose decryption fails, for
  whatever reason \<open>e\<close>, returns \<open>-EIO\<close> with the buffer untouched; the filesystem object,
  cache included, is unchanged; and the decryption client has been called exactly once
  more, with the key path of the file.
\<close>

theorem Read_decrypt_failure_is_EIO:
  assumes "HasPrefix path ''/secrets/''"
    and "sopsClient fs \<noteq> None"
    and "parseSopsKeyPath path = Some keyPath"
    and "cacheLookup fs path tLookup = None"
    and "fst (DecryptKey (secretsWSLPath fs) keyPath w) = Inl e"
  shows "Read tLookup tStore path buff ofst fh fs w =
           (Returns (- EIO, buff), fs,
            w\<lparr>decryptCalls := decryptCalls w @ [(secretsWSLPath fs, keyPath)]\<rparr>)"
proof -
  obtain r w' where d: "DecryptKey (secretsWSLPath fs) keyPath w = (r, w')"
    by (cases "DecryptKey (secretsWSLPath fs) keyPath w")
  with assms(5) have r: "r = Inl e" by simp
  from d have w': "w' = w\<lparr>decryptCalls := decryptCalls w @ [(secretsWSLPath fs, keyPath)]\<rparr>"
    using snd_DecryptKey [of "secretsWSLPath fs" keyPath w] by simp
  have "readSecret tLookup tStore path fs w = (Inl (ErrDecrypt e), fs, w')"
    by (simp add: readSecret_miss [OF assms(3) assms(2) assms(4)] d r)
  with assms(1) w' show ?thesis
    by (simp add: Read_def)
qed

theorem Read_decrypt_failure_is_EIO_witness:
  "HasPrefix ''/secrets/api_key'' ''/secrets/'' \<and>
   sopsClient exampleFS = Some \<lparr>keyserviceAddr = ''localhost:5000''\<rparr> \<and>
   parseSopsKeyPath ''/secrets/api_key'' = Some [''api_key''] \<and>
   cacheLookup exampleFS ''/secrets/api_key'' 0 = None \<and>
   fst (DecryptKey (secretsWSLPath exampleFS) [''api_key''] deniedWorld)
     = Inl SopsDecryptFailed \<and>
   Read 0 7 ''/secrets/api_key'' ''--------'' 0 0 exampleFS deniedWorld
     = (Returns (- 5, ''--------''), exampleFS,
        deniedWorld\<lparr>decryptCalls := [(''secrets.yaml'', [''api_key''])]\<rparr>)"
proof -
  have m: "cacheLookup exampleFS ''/secrets/api_key'' 0 = None"
    by (simp add: cacheLookup_def exampleFS_fields)
  have d: "fst (DecryptKey (secretsWSLPath exampleFS) [''api_key''] deniedWorld)
             = Inl SopsDecryptFailed"
    by (simp add: DecryptKey_def deniedWorld_def exampleWorld_def)
  have c: "decryptCalls deniedWorld = []"
    by (simp add: deniedWorld_def exampleWorld_def)
  from Read_decrypt_failure_is_EIO [OF HasPrefix_api_key exampleFS_fields(1) parse_api_key m d]
  have "Read 0 7 ''/secrets/api_key'' ''--------'' 0 0 exampleFS deniedWorld
     = (Returns (- 5, ''--------''), exampleFS,
        deniedWorld\<lparr>decryptCalls := [(''secrets.yaml'', [''api_key''])]\<rparr>)"
    by (simp add: EIO_def c exampleFS_fields(2))
  with m d show ?thesis
    by (simp add: HasPrefix_api_key parse_api_key exampleFS_def)
qed

text \<open>
  C9: attribute query, file open, directory open, directory list and the two close
  operations hand back the filesystem object and the world exactly as they received
  them, for every path and every state: no cache entry is added, overwritten or
  removed, and no call of the decryption client is recorded.
\<close>

theorem only_Read_decrypts_or_writes_cache:
  "snd (Getattr path stat fh fs w) = (fs, w) \<and>
   snd (Open path flags fs w) = (fs, w) \<and>
   snd (Opendir path fs w) = (fs, w) \<and>
   snd (Readdir path ofst fh fs w) = (fs, w) \<and>
   snd (Release path fh fs w) = (fs, w) \<and>
   snd (Releasedir path fh fs w) = (fs, w)"
proof (intro conjI)
  show "snd (Getattr path stat fh fs w) = (fs, w)"
    by (simp add: Getattr_def split: option.splits)
  show "snd (Open path flags fs w) = (fs, w)"
    by (simp add: Open_def split: option.splits)
  show "snd (Opendir path fs w) = (fs, w)"
    by (simp add: Opendir_def split: option.splits)
  show "snd (Readdir path ofst fh fs w) = (fs, w)"
    by (simp add: Readdir_def Let_def split: option.splits node.splits)
  show "snd (Release path fh fs w) = (fs, w)"
    by (simp add: Release_def)
  show "snd (Releasedir path fh fs w) = (fs, w)"
    by (simp add: Releasedir_def)
qed

theorem only_Read_decrypts_or_writes_cache_witness:
  "snd (Getattr ''/secrets/api_key'' \<lparr>Mode = 0, Size = 0\<rparr> 0 exampleFS exampleWorld)
     = (exampleFS, exampleWorld) \<and>
   snd (Open ''/secrets/api_key'' 0 exampleFS exampleWorld) = (exampleFS, exampleWorld) \<and>
   snd (Readdir ''/secrets'' 0 0 exampleFS exampleWorld) = (exampleFS, exampleWorld) \<and>
   decryptCalls (snd (snd (Read 0 7 ''/secrets/api_key'' ''--------'' 0 0 exampleFS exampleWorld)))
     = [(''secrets.yaml'', [''api_key''])] \<and>
   secretsCache (fst (snd (Read 0 7 ''/secrets/api_key'' ''--------'' 0 0 exampleFS exampleWorld)))
       ''/secrets/api_key''
     = Some \<lparr>cvalue = ''s3cr3t'', timestamp = 7\<rparr>"
proof -
  have "Read 0 7 ''/secrets/api_key'' ''--------'' 0 0 exampleFS exampleWorld
          = (Returns (6, ''s3cr3t--''),
             cacheStore exampleFS ''/secrets/api_key'' ''s3cr3t'' 7,
             exampleWorld\<lparr>decryptCalls := [(''secrets.yaml'', [''api_key''])]\<rparr>)"
    by (simp add: Read_def HasPrefix_api_key readSecret_api_key)
  then show ?thesis
    using only_Read_decrypts_or_writes_cache
      [of "''/secrets/api_key''" "\<lparr>Mode = 0, Size = 0\<rparr>" 0 exampleFS exampleWorld 0 0]
      only_Read_decrypts_or_writes_cache
      [of "''/secrets''" "\<lparr>Mode = 0, Size = 0\<rparr>" 0 exampleFS exampleWorld 0 0]
    by (simp add: cacheStore_def)
qed

section \<open>The structure of the secrets file\<close>

lemma map_of_delete: "map_of (delete m key) k = (if k = key then None else map_of m k)"
  by (induction m) (auto simp: delete_def)

lemma keys_delete: "key \<notin> fst ` set (delete m key)"
  by (auto simp: delete_def)

text \<open>
  C8: when the secrets file can be read and parsed, the structure returned, which the
  refresh installs as the tree, has no top-level key \<open>sops\<close>; every other top-level key
  maps to what it maps to in the parsed file; so nothing resolves under \<open>sops\<close> in the
  mounted tree, and an attribute query on \<open>/secrets/sops\<close> returns \<open>-ENOENT\<close>.
\<close>

theorem GetSecretsStructure_excludes_sops:
  assumes "osReadFile w (secretsWSLPath fs) = Some data"
    and "yamlUnmarshal w data = Some src"
  shows "\<exists>tree. GetSecretsStructure w (secretsWSLPath fs) = Inr tree \<and>
           refreshSecretsStructure fs w = (None, fs\<lparr>secretsTree := tree\<rparr>, w) \<and>
           ''sops'' \<notin> fst ` set tree \<and>
           map_of tree ''sops'' = None \<and>
           (\<forall>k. k \<noteq> ''sops'' \<longrightarrow> map_of tree k = map_of src k) \<and>
           navigateToPath (fs\<lparr>secretsTree := tree\<rparr>) (''sops'' # rest) = None \<and>
           fst (fst (Getattr ''/secrets/sops'' stat fh (fs\<lparr>secretsTree := tree\<rparr>) w))
             = - ENOENT"
proof -
  let ?tree = "delete src ''sops''"
  have g: "GetSecretsStructure w (secretsWSLPath fs) = Inr ?tree"
    using assms by (simp add: GetSecretsStructure_def)
  have r: "refreshSecretsStructure fs w = (None, fs\<lparr>secretsTree := ?tree\<rparr>, w)"
    by (simp add: refreshSecretsStructure_def g)
  have n: "navigateToPath (fs\<lparr>secretsTree := ?tree\<rparr>) (''sops'' # r) = None" for r
    by (simp add: navigateToPath_def map_of_delete)
  have p: "parseSopsKeyPath ''/secrets/sops'' = Some [''sops'']"
    by (simp add: parseSopsKeyPath_def string_defs)
  have a: "fst (fst (Getattr ''/secrets/sops'' stat fh (fs\<lparr>secretsTree := ?tree\<rparr>) w))
             = - ENOENT"
    using n [of "[]"] by (simp add: Getattr_def p HasPrefix_def)
  show ?thesis
    using g r n [of rest] a keys_delete [of "''sops''" src] by (simp add: map_of_delete)
qed

theorem GetSecretsStructure_excludes_sops_witness:
  "osReadFile exampleWorld (secretsWSLPath exampleFS) = Some ''data'' \<and>
   yamlUnmarshal exampleWorld ''data'' = Some exampleSource \<and>
   map_of exampleSource ''sops'' = Some (YMap [(''version'', YStr ''3.8.1'')]) \<and>
   (\<exists>tree. GetSecretsStructure exampleWorld (secretsWSLPath exampleFS) = Inr tree \<and>
      map_of tree ''sops'' = None \<and>
      map_of tree ''api_key'' = Some (YStr ''ENC[b]''))"
proof -
  have h1: "osReadFile exampleWorld (secretsWSLPath exampleFS) = Some ''data''"
    by (simp add: exampleWorld_def exampleFS_def)
  have h2: "yamlUnmarshal exampleWorld ''data'' = Some exampleSource"
    by (simp add: exampleWorld_def)
  have s: "map_of exampleSource ''sops'' = Some (YMap [(''version'', YStr ''3.8.1'')])"
          "map_of exampleSource ''api_key'' = Some (YStr ''ENC[b]'')"
    by (simp_all add: exampleSource_def)
  from GetSecretsStructure_excludes_sops [OF h1 h2] obtain tree where
    t: "GetSecretsStructure exampleWorld (secretsWSLPath exampleFS) = Inr tree"
       "map_of tree ''sops'' = None"
       "\<forall>k. k \<noteq> ''sops'' \<longrightarrow> map_of tree k = map_of exampleSource k"
    by blast
  from t(3) s(2) have "map_of tree ''api_key'' = Some (YStr ''ENC[b]'')" by simp
  with h1 h2 s(1) t(1,2) show ?thesis by blast
qed

section \<open>Paths with empty segments\<close>

lemma noEmptyKeys_map_of:
  "noEmptyKeys m \<Longrightarrow> map_of m [] = None"
  "noEmptyKeys m \<Longrightarrow> map_of m k = Some v \<Longrightarrow> noEmptyKey v"
  by (induction m) (auto split: if_splits)

lemma navigate_empty_segment:
  "noEmptyKey nd \<Longrightarrow> [] \<in> set ks \<Longrightarrow> navigate nd ks = None"
proof (induction ks arbitrary: nd)
  case Nil
  then show ?case by simp
next
  case (Cons k rest)
  show ?case
  proof (cases nd)
    case (YMap m)
    with Cons.prems have m: "noEmptyKeys m" by simp
    show ?thesis
    proof (cases "map_of m k")
      case None
      with YMap show ?thesis by simp
    next
      case (Some v)
      with m have "k \<noteq> []" "noEmptyKey v"
        using noEmptyKeys_map_of by auto
      with Cons.prems have "[] \<in> set rest" by auto
      with Cons.IH \<open>noEmptyKey v\<close> have "navigate v rest = None" by simp
      with YMap Some show ?thesis by simp
    qed
  qed simp_all
qed

text \<open>
  C10, as the code has it. A path under \<open>/secrets/\<close> is never rejected by the
  derivation: its key path has one segment for every piece after the mount root, and an
  empty piece gives an empty segment (\<open>/secrets/\<close> derives one empty segment,
  \<open>/secrets//a\<close> an empty segment and \<open>a\<close>). In a tree where no mapping has the empty
  key, a key path with an empty segment does not resolve, and the four operations that
  resolve the path in the tree, \<open>Getattr\<close>, \<open>Open\<close>, \<open>Opendir\<close> and \<open>Readdir\<close>, return
  \<open>-ENOENT\<close>.
\<close>

theorem empty_segments_resolve_NotFound:
  assumes "HasPrefix path ''/secrets/''"
  shows "\<exists>ks. parseSopsKeyPath path = Some ks \<and>
           length ks = length (Split (drop (length ''/secrets/'') path) CHR ''/'') \<and>
           (\<forall>i < length ks.
              Split (drop (length ''/secrets/'') path) CHR ''/'' ! i = [] \<longrightarrow> ks ! i = []) \<and>
           ([] \<in> set ks \<and> noEmptyKey (YMap (secretsTree fs)) \<longrightarrow>
              navigateToPath fs ks = None \<and>
              Getattr path stat fh fs w = ((- ENOENT, stat), fs, w) \<and>
              Open path flags fs w = ((- ENOENT, 0), fs, w) \<and>
              Opendir path fs w = ((- ENOENT, 0), fs, w) \<and>
              fst (fst (Readdir path ofst fh fs w)) = - ENOENT)"
proof -
  let ?segs = "Split (drop (length ''/secrets/'') path) CHR ''/''"
  let ?ks = "map (\<lambda>k. TrimSuffix (TrimSuffix k ''.yaml'') ''.txt'') ?segs"
  have p: "parseSopsKeyPath path = Some ?ks"
    by (rule HasPrefix_secrets_parse [OF assms])
  have e: "\<forall>i < length ?ks. ?segs ! i = [] \<longrightarrow> ?ks ! i = []"
    by (simp add: TrimSuffix_empty)
  from assms have ne: "path \<noteq> ''/''" "path \<noteq> ''/secrets''"
    by (auto simp: HasPrefix_def)
  have r: "navigateToPath fs ?ks = None \<and>
           Getattr path stat fh fs w = ((- ENOENT, stat), fs, w) \<and>
           Open path flags fs w = ((- ENOENT, 0), fs, w) \<and>
           Opendir path fs w = ((- ENOENT, 0), fs, w) \<and>
           fst (fst (Readdir path ofst fh fs w)) = - ENOENT"
    if "[] \<in> set ?ks" and "noEmptyKey (YMap (secretsTree fs))"
  proof -
    from that have n: "navigateToPath fs ?ks = None"
      unfolding navigateToPath_def by (rule navigate_empty_segment [rotated])
    then show ?thesis
      using assms ne p
      by (simp add: Getattr_def Open_def Opendir_def Readdir_def Let_def)
  qed
  show ?thesis
    using p e r by (intro exI [of _ ?ks]) simp
qed

theorem empty_segments_resolve_NotFound_witness:
  "HasPrefix ''/secrets//password'' ''/secrets/'' \<and>
   parseSopsKeyPath ''/secrets/'' = Some [[]] \<and>
   parseSopsKeyPath ''/secrets//a'' = Some [[], ''a''] \<and>
   parseSopsKeyPath ''/secrets//password'' = Some [[], ''password''] \<and>
   noEmptyKey (YMap (secretsTree exampleFS)) \<and>
   Getattr ''/secrets//password'' \<lparr>Mode = 0, Size = 0\<rparr> 0 exampleFS exampleWorld
     = ((- 2, \<lparr>Mode = 0, Size = 0\<rparr>), exampleFS, exampleWorld) \<and>
   Open ''/secrets//password'' 0 exampleFS exampleWorld = ((- 2, 0), exampleFS, exampleWorld)"
proof -
  have h: "HasPrefix ''/secrets//password'' ''/secrets/''"
    by (simp add: HasPrefix_def)
  have p: "parseSopsKeyPath ''/secrets//password'' = Some [[], ''password'']"
          "parseSopsKeyPath ''/secrets/'' = Some [[]]"
          "parseSopsKeyPath ''/secrets//a'' = Some [[], ''a'']"
    by (simp_all add: parseSopsKeyPath_def string_defs)
  have t: "noEmptyKey (YMap (secretsTree exampleFS))"
    by (simp add: exampleFS_fields)
  from empty_segments_resolve_NotFound
    [OF h, of exampleFS "\<lparr>Mode = 0, Size = 0\<rparr>" 0 exampleWorld 0 0]
  have "Getattr ''/secrets//password'' \<lparr>Mode = 0, Size = 0\<rparr> 0 exampleFS exampleWorld
     = ((- 2, \<lparr>Mode = 0, Size = 0\<rparr>), exampleFS, exampleWorld) \<and>
   Open ''/secrets//password'' 0 exampleFS exampleWorld = ((- 2, 0), exampleFS, exampleWorld)"
    using p(1) t by (auto simp: ENOENT_def)
  with h p t show ?thesis by simp
qed

text \<open>
  C10 as written says every operation on such a path returns NotFound. \<open>Read\<close> does not
  look at the tree: on \<open>/secrets/\<close>, whose key path does not resolve in the tree, it
  calls the decryption client and, the plaintext having no empty key either, returns
  \<open>-EIO\<close>; \<open>Release\<close> and \<open>Releasedir\<close> return 0.
\<close>

theorem Read_empty_segment_counterexample:
  "parseSopsKeyPath ''/secrets/'' = Some [[]] \<and>
   noEmptyKey (YMap (secretsTree exampleFS)) \<and>
   navigateToPath exampleFS [[]] = None \<and>
   Read 0 7 ''/secrets/'' ''--------'' 0 0 exampleFS exampleWorld
     = (Returns (- 5, ''--------''), exampleFS,
        exampleWorld\<lparr>decryptCalls := [(''secrets.yaml'', [[]])]\<rparr>) \<and>
   Release ''/secrets/'' 0 exampleFS exampleWorld = (0, exampleFS, exampleWorld) \<and>
   Releasedir ''/secrets/'' 0 exampleFS exampleWorld = (0, exampleFS, exampleWorld)"
proof -
  have p: "parseSopsKeyPath ''/secrets/'' = Some [[]]"
    by (simp add: parseSopsKeyPath_def string_defs)
  have d: "DecryptKey ''secrets.yaml'' [[]] exampleWorld
     = (Inl (KeyNotFound [[]]), exampleWorld\<lparr>decryptCalls := [(''secrets.yaml'', [[]])]\<rparr>)"
    by (simp add: DecryptKey_def exampleWorld_def examplePlain_def)
  have r: "readSecret 0 7 ''/secrets/'' exampleFS exampleWorld
     = (Inl (ErrDecrypt (KeyNotFound [[]])), exampleFS,
        exampleWorld\<lparr>decryptCalls := [(''secrets.yaml'', [[]])]\<rparr>)"
    using exampleFS_fields(1)
    by (auto simp: readSecret_def p cacheLookup_def exampleFS_fields(2,3) d)
  have "Read 0 7 ''/secrets/'' ''--------'' 0 0 exampleFS exampleWorld
     = (Returns (- 5, ''--------''), exampleFS,
        exampleWorld\<lparr>decryptCalls := [(''secrets.yaml'', [[]])]\<rparr>)"
    by (simp add: Read_def HasPrefix_def r EIO_def)
  then show ?thesis
    by (simp add: p exampleFS_fields(4) navigateToPath_def Release_def Releasedir_def)
qed

end
